theory Spec2Isabelle
  imports Main "HOL-Library.Multiset"
begin

section \<open>Data model of \<^verbatim>\<open>bin/server.js\<close>\<close>

text \<open>
  The server keeps one record per conversation id in the key-value collection
  \<^verbatim>\<open>conversationKV\<close>.  The handlers read and write JavaScript objects; a field of such
  an object may be missing, so every field of the stored record is an \<open>option\<close>
  (\<open>None\<close> is \<^verbatim>\<open>undefined\<close>).  JavaScript numbers that hold counters, indices,
  status codes and epoch times are modelled as \<open>int\<close>.
\<close>

text \<open>One element \<^verbatim>\<open>{ index, token }\<close> of the \<^verbatim>\<open>tokens\<close> array.\<close>

record token_entry =
  index :: int
  token :: string

text \<open>
  The \<^verbatim>\<open>error\<close> field is written as \<^verbatim>\<open>false\<close> by the first token and as the object
  \<^verbatim>\<open>{ code, error: message }\<close> by the failure branch of the POST handler.
\<close>

datatype error_value = ErrorFalse | ErrorObj int string

text \<open>
  The \<^verbatim>\<open>result\<close> field is \<^verbatim>\<open>false\<close> or the provider's response; the response is opaque
  to the server and stands here as a string.
\<close>

datatype result_value = ResultFalse | ResultPayload string

record props =
  tokens :: "token_entry list option"
  done_flag :: "bool option"
  error :: "error_value option"
  result :: "result_value option"
  ttl :: "int option"

text \<open>The object with no field at all; object literals of the source extend it.\<close>

definition no_props :: props where
  "no_props = \<lparr>tokens = None, done_flag = None, error = None, result = None, ttl = None\<rparr>"

text \<open>JavaScript truthiness of the two fields the GET handler tests.\<close>

fun error_truthy :: "error_value option \<Rightarrow> bool" where
  "error_truthy (Some (ErrorObj c m)) = True"
| "error_truthy (Some ErrorFalse) = False"
| "error_truthy None = False"

fun done_truthy :: "bool option \<Rightarrow> bool" where
  "done_truthy (Some b) = b"
| "done_truthy None = False"

subsection \<open>The key-value store\<close>

type_synonym store = "string \<rightharpoonup> props"

text \<open>
  Modelled from the spec: the collection object of the external package
  \<^verbatim>\<open>@cyclic.sh/dynamodb\<close>, whose code is not part of the repository.  \<^verbatim>\<open>get(key)\<close>
  yields the stored value or nothing (\<^verbatim>\<open>null\<close>), and the fields are read through
  \<^verbatim>\<open>props\<close>.
\<close>

definition kv_get :: "store \<Rightarrow> string \<Rightarrow> props option" where
  "kv_get kv k = kv k"

text \<open>The fields of the written object replace the stored ones, the others stay.\<close>

definition merge_props :: "props \<Rightarrow> props \<Rightarrow> props" where
  "merge_props old new =
     \<lparr>tokens = (case tokens new of None \<Rightarrow> tokens old | Some v \<Rightarrow> Some v),
      done_flag = (case done_flag new of None \<Rightarrow> done_flag old | Some v \<Rightarrow> Some v),
      error = (case error new of None \<Rightarrow> error old | Some v \<Rightarrow> Some v),
      result = (case result new of None \<Rightarrow> result old | Some v \<Rightarrow> Some v),
      ttl = (case ttl new of None \<Rightarrow> ttl old | Some v \<Rightarrow> Some v)\<rparr>"

text \<open>
  Modelled from the spec: \<^verbatim>\<open>set(key, value)\<close> of the same external collection.  The
  producer "writes back only the token list (not done/result/error), preserving the
  original ttl" (the source says \<^verbatim>\<open>//only update tokens\<close> at that write), so a write
  updates the fields it names and keeps the others; a write to a missing key creates
  the record.
\<close>

definition kv_set :: "store \<Rightarrow> string \<Rightarrow> props \<Rightarrow> store" where
  "kv_set kv k new =
     kv(k \<mapsto> (case kv k of None \<Rightarrow> new | Some old \<Rightarrow> merge_props old new))"

section \<open>The GET handler (Delta Reader)\<close>

datatype js_exception = TypeError

text \<open>
  The three bodies the handler sends:
  \<^verbatim>\<open>{ id: '', event: 'error', data: JSON.stringify(e) }\<close>,
  \<^verbatim>\<open>{ event: 'result', id: '', data: JSON.stringify(result) }\<close> and
  \<^verbatim>\<open>{ id: end, data }\<close>.
\<close>

datatype reply_body =
    ErrorEvent "error_value option"
  | ResultEvent "result_value option"
  | Partial int string

text \<open>
  \<^verbatim>\<open>for (let index = nextID; index < end; index++) data += tokens[index].token\<close>.
  Reading an array outside its bounds gives \<^verbatim>\<open>undefined\<close>, and the property access
  on it throws.
\<close>

function read_loop :: "token_entry list \<Rightarrow> int \<Rightarrow> int \<Rightarrow> string \<Rightarrow> js_exception + string" where
  "read_loop ts i end_ix data =
     (if i < end_ix then
        (if 0 \<le> i \<and> i < int (length ts)
         then read_loop ts (i + 1) end_ix (data @ token (ts ! nat i))
         else Inl TypeError)
      else Inr data)"
  by pat_completeness auto
termination
  by (relation "measure (\<lambda>(ts, i, end_ix, data). nat (end_ix - i))") auto

declare read_loop.simps [simp del]

text \<open>
  The handler.  \<^verbatim>\<open>nextID\<close> is \<open>None\<close> when the parameter is not supplied and then
  defaults to 0; a supplied parameter is a decimal string, which the loop uses as the
  number it denotes.  \<^verbatim>\<open>tokens.sort((a, b) => a.index - b.index)\<close> is the stable sort
  by ascending index.  The handler only reads the store, which is returned with the
  reply.
\<close>

definition get_handler ::
  "store \<Rightarrow> string \<Rightarrow> int option \<Rightarrow> (js_exception + reply_body) \<times> store" where
  "get_handler kv conversationID nextID_param =
     (let nextID = (case nextID_param of None \<Rightarrow> 0 | Some n \<Rightarrow> n) in
      case kv_get kv conversationID of
        None \<Rightarrow> (Inr (ErrorEvent (Some (ErrorObj 404 ''conversationID not Found!''))), kv)
      | Some conversation \<Rightarrow>
          if error_truthy (error conversation) then
            (Inr (ErrorEvent (error conversation)), kv)
          else if done_truthy (done_flag conversation) then
            (Inr (ResultEvent (result conversation)), kv)
          else
            (case tokens conversation of
               None \<Rightarrow> (Inl TypeError, kv)
             | Some ts \<Rightarrow>
                 let end_ix = int (length ts);
                     sorted_ts = sort_key index ts
                 in (case read_loop sorted_ts nextID end_ix [] of
                       Inl ex \<Rightarrow> (Inl ex, kv)
                     | Inr data \<Rightarrow> (Inr (Partial end_ix data), kv))))"

section \<open>The POST handler (Progress Recorder)\<close>

text \<open>
  An asynchronous step either never resolves (the waiting loop below), throws, or
  returns.
\<close>

datatype 'a outcome = Hang | Throw js_exception | Ok 'a

text \<open>
  \<^verbatim>\<open>waitConversationKV(ms)\<close>: every \<^verbatim>\<open>ms\<close> milliseconds the timer reads the record and
  resolves with it once it exists.  A producer's steps are taken one after the other
  here, so the store does not change while the loop polls; \<open>None\<close> is the loop that
  never resolves.
\<close>

partial_function (option) waitConversationKV :: "store \<Rightarrow> string \<Rightarrow> props option" where
  "waitConversationKV kv conversationID =
     (case kv_get kv conversationID of
        Some conversation \<Rightarrow> Some conversation
      | None \<Rightarrow> waitConversationKV kv conversationID)"

text \<open>The two variables \<^verbatim>\<open>onProgress\<close> closes over.\<close>

record recorder =
  conversationStart :: bool
  conversationCount :: int

definition new_recorder :: recorder where
  "new_recorder = \<lparr>conversationStart = True, conversationCount = 0\<rparr>"

text \<open>
  \<^verbatim>\<open>onProgress(token)\<close>, called at time \<open>now\<close> (\<^verbatim>\<open>Date.now()\<close>, milliseconds).  The first
  call builds the whole record; a later call waits for the record, pushes onto its
  token array and writes \<^verbatim>\<open>{ tokens }\<close>.  \<open>written\<close> is the object handed to
  \<^verbatim>\<open>conversationKV.set\<close>.
\<close>

definition first_record :: "int \<Rightarrow> string \<Rightarrow> int \<Rightarrow> props" where
  "first_record ix tok now =
     \<lparr>tokens = Some [\<lparr>index = ix, token = tok\<rparr>],
      done_flag = Some False,
      error = Some ErrorFalse,
      result = Some ResultFalse,
      ttl = Some (now div 1000 + 10 * 60)\<rparr>"

definition written ::
  "string \<Rightarrow> int \<Rightarrow> string \<Rightarrow> recorder \<times> store \<Rightarrow> props outcome" where
  "written conversationID now tok st =
     (let (r, kv) = st;
          ix = conversationCount r + 1
      in if conversationStart r then Ok (first_record ix tok now)
         else
           (case waitConversationKV kv conversationID of
              None \<Rightarrow> Hang
            | Some conversation \<Rightarrow>
                (case tokens conversation of
                   None \<Rightarrow> Throw TypeError
                 | Some ts \<Rightarrow>
                     Ok (no_props\<lparr>tokens := Some (ts @ [\<lparr>index = ix, token = tok\<rparr>])\<rparr>))))"

definition onProgress ::
  "string \<Rightarrow> int \<Rightarrow> string \<Rightarrow> recorder \<times> store \<Rightarrow> (recorder \<times> store) outcome" where
  "onProgress conversationID now tok st =
     (let (r, kv) = st;
          r' = \<lparr>conversationStart = False, conversationCount = conversationCount r + 1\<rparr>
      in case written conversationID now tok st of
           Hang \<Rightarrow> Hang
         | Throw ex \<Rightarrow> Throw ex
         | Ok conversation \<Rightarrow> Ok (r', kv_set kv conversationID conversation))"

text \<open>
  The calls of \<^verbatim>\<open>onProgress\<close> for the tokens of one request, each with its time, one
  call completing before the next starts (one live producer per conversation id).
\<close>

fun run_tokens ::
  "string \<Rightarrow> (int \<times> string) list \<Rightarrow> recorder \<times> store \<Rightarrow> (recorder \<times> store) outcome" where
  "run_tokens conversationID [] st = Ok st"
| "run_tokens conversationID ((now, tok) # evs) st =
     (case onProgress conversationID now tok st of
        Hang \<Rightarrow> Hang
      | Throw ex \<Rightarrow> Throw ex
      | Ok st' \<Rightarrow> run_tokens conversationID evs st')"

text \<open>
  The request body: \<^verbatim>\<open>body.message\<close>, and whether \<^verbatim>\<open>body.stream === true\<close>.  The other
  fields are only passed on to the provider.
\<close>

record body =
  message :: "string option"
  stream :: bool

text \<open>
  What \<^verbatim>\<open>client.sendMessage\<close> does for a message: it calls \<^verbatim>\<open>onProgress\<close> for some
  tokens, then resolves with a result (\<open>None\<close> is \<^verbatim>\<open>undefined\<close>) or throws an error
  whose \<^verbatim>\<open>data.code\<close> and \<^verbatim>\<open>data.message\<close> may be missing.  The client's code is not
  under the source tree, so its behaviour is a parameter of the handler.
\<close>

datatype provider_end = Resolved "string option" | Raised "int option" "string option"

record provider_run =
  emitted :: "(int \<times> string) list"
  ending :: provider_end

text \<open>The \<^verbatim>\<open>||\<close> operator with a default, on a number and on a string.\<close>

fun or_code :: "int option \<Rightarrow> int \<Rightarrow> int" where
  "or_code None d = d"
| "or_code (Some c) d = (if c = 0 then d else c)"

fun or_message :: "string option \<Rightarrow> string \<Rightarrow> string" where
  "or_message None d = d"
| "or_message (Some m) d = (if m = [] then d else m)"

definition message_required :: string where
  "message_required = ''The message parameter is required.''"

definition default_message :: "string \<Rightarrow> string" where
  "default_message clientToUse =
     ''There was an error communicating with '' @
     (if clientToUse = ''bing'' then ''Bing'' else ''ChatGPT'') @ ''.''"

text \<open>
  The \<^verbatim>\<open>try\<close> block: a missing (or empty) message throws the validation error before
  the provider is called.
\<close>

definition attempt :: "(string \<Rightarrow> provider_run) \<Rightarrow> body \<Rightarrow> provider_run" where
  "attempt sendMessage b =
     (case message b of
        None \<Rightarrow> \<lparr>emitted = [], ending = Raised (Some 400) (Some message_required)\<rparr>
      | Some m \<Rightarrow>
          if m = [] then \<lparr>emitted = [], ending = Raised (Some 400) (Some message_required)\<rparr>
          else sendMessage m)"

text \<open>What the handler answers on the HTTP response.\<close>

datatype http_reply =
    RawEnd
  | Send string
  | SendError int string

text \<open>
  The variables \<^verbatim>\<open>result\<close> and \<^verbatim>\<open>error\<close> after the \<^verbatim>\<open>try\<close> block, the latter read
  through \<^verbatim>\<open>error?.data?.code\<close> and \<^verbatim>\<open>error?.data?.message\<close>.
\<close>

fun result_of :: "provider_end \<Rightarrow> string option" where
  "result_of (Resolved res) = res"
| "result_of (Raised c m) = None"

fun error_data_code :: "provider_end \<Rightarrow> int option" where
  "error_data_code (Raised c m) = c"
| "error_data_code (Resolved res) = None"

fun error_data_message :: "provider_end \<Rightarrow> string option" where
  "error_data_message (Raised c m) = m"
| "error_data_message (Resolved res) = None"

text \<open>The part of the handler after the \<^verbatim>\<open>try\<close> block.\<close>

definition finish ::
  "string \<Rightarrow> string \<Rightarrow> bool \<Rightarrow> provider_end \<Rightarrow> store \<Rightarrow> http_reply \<times> store" where
  "finish clientToUse conversationID streaming e kv =
     (case result_of e of
        Some res \<Rightarrow>
          if streaming then
            (RawEnd, kv_set kv conversationID
               (no_props\<lparr>result := Some (ResultPayload res), done_flag := Some True\<rparr>))
          else (Send res, kv)
      | None \<Rightarrow>
          let code = or_code (error_data_code e) 503;
              msg = or_message (error_data_message e) (default_message clientToUse)
          in if streaming then
               (RawEnd, kv_set kv conversationID (no_props\<lparr>error := Some (ErrorObj code msg)\<rparr>))
             else (SendError code msg, kv))"

definition post_handler ::
  "string \<Rightarrow> (string \<Rightarrow> provider_run) \<Rightarrow> string \<Rightarrow> body \<Rightarrow> store
     \<Rightarrow> (http_reply \<times> store) outcome" where
  "post_handler clientToUse sendMessage conversationID b kv =
     (let run = attempt sendMessage b;
          progress = (if stream b then run_tokens conversationID (emitted run) (new_recorder, kv)
                      else Ok (new_recorder, kv))
      in case progress of
           Hang \<Rightarrow> Hang
         | Throw ex \<Rightarrow> Throw ex
         | Ok (r, kv') \<Rightarrow> Ok (finish clientToUse conversationID (stream b) (ending run) kv'))"

text \<open>
  The entries a producer whose counter stands at \<open>c\<close> pushes for a list of token
  events: the counter is incremented before each push, so they carry the indices
  \<open>c + 1\<close>, \<open>c + 2\<close>, ... in arrival order.
\<close>

fun entries_from :: "int \<Rightarrow> (int \<times> string) list \<Rightarrow> token_entry list" where
  "entries_from c [] = []"
| "entries_from c ((now, tok) # evs) = \<lparr>index = c + 1, token = tok\<rparr> # entries_from (c + 1) evs"

section \<open>Reference values for the statements\<close>

text \<open>
  Two ways to describe the text of a partial reply in terms of the \<^verbatim>\<open>index\<close> field of
  the entries, in index order: the entries whose index is at least \<open>k\<close>, and the entries
  whose index is greater than \<open>k\<close>.  They are compared with what the handler sends.
\<close>

definition text_from_index :: "token_entry list \<Rightarrow> int \<Rightarrow> string" where
  "text_from_index ts k = concat (map token (filter (\<lambda>e. k \<le> index e) (sort_key index ts)))"

definition text_after_index :: "token_entry list \<Rightarrow> int \<Rightarrow> string" where
  "text_after_index ts k = concat (map token (filter (\<lambda>e. k < index e) (sort_key index ts)))"

text \<open>Concrete records, request bodies and providers for the examples.\<close>

definition hello_tokens :: "token_entry list" where
  "hello_tokens = [\<lparr>index = 1, token = ''Hel''\<rparr>, \<lparr>index = 2, token = ''lo''\<rparr>]"

definition hello_store :: store where
  "hello_store = Map.empty(''c1'' \<mapsto> (first_record 1 ''Hel'' 0)\<lparr>tokens := Some hello_tokens\<rparr>)"

definition stale_store :: store where
  "stale_store = Map.empty(''c1'' \<mapsto> first_record 1 ''a'' 0)"

definition grown_store :: store where
  "grown_store = Map.empty(''c1'' \<mapsto> (first_record 1 ''a'' 0)
     \<lparr>tokens := Some [\<lparr>index = 1, token = ''a''\<rparr>, \<lparr>index = 2, token = ''b''\<rparr>]\<rparr>)"

definition no_message_stream :: body where
  "no_message_stream = \<lparr>message = None, stream = True\<rparr>"

definition quiet_provider :: "string \<Rightarrow> provider_run" where
  "quiet_provider m = \<lparr>emitted = [], ending = Resolved (Some ''ok'')\<rparr>"

definition failing_provider :: "string \<Rightarrow> provider_run" where
  "failing_provider m = \<lparr>emitted = [(0, ''Hel'')], ending = Raised (Some 429) (Some ''quota'')\<rparr>"

definition zero_code_provider :: "string \<Rightarrow> provider_run" where
  "zero_code_provider m = \<lparr>emitted = [], ending = Raised (Some 0) (Some ''quota'')\<rparr>"

text \<open>
  The store after a streamed request that failed and a later streamed request for the
  same id that succeeded: both terminal writes have landed on one record.
\<close>

definition both_terminal_store :: store where
  "both_terminal_store =
     snd (finish ''chatgpt'' ''c1'' True (Resolved (Some ''Hello''))
       (snd (finish ''chatgpt'' ''c1'' True (Raised (Some 503) (Some ''down'')) Map.empty)))"

section \<open>Auxiliary facts\<close>

subsection \<open>The reading loop and the sort\<close>

lemma read_loop_from:
  "0 \<le> k \<Longrightarrow> e = int (length ts) \<Longrightarrow>
     read_loop ts k e data = Inr (data @ concat (map token (drop (nat k) ts)))"
proof (induction ts k e data rule: read_loop.induct)
  case (1 ts i end_ix data)
  show ?case
  proof (cases "i < end_ix")
    case True
    with "1.prems" have in_range: "0 \<le> i \<and> i < int (length ts)" by simp
    have step: "read_loop ts i end_ix data = read_loop ts (i + 1) end_ix (data @ token (ts ! nat i))"
      using True in_range by (subst read_loop.simps) simp
    have "nat i < length ts" using in_range by linarith
    then have "drop (nat i) ts = ts ! nat i # drop (Suc (nat i)) ts"
      by (simp add: Cons_nth_drop_Suc)
    moreover have "nat (i + 1) = Suc (nat i)" using in_range by linarith
    ultimately show ?thesis
      using "1.IH" [OF True in_range] "1.prems" step by simp
  next
    case False
    with "1.prems" have "length ts \<le> nat i" by linarith
    then show ?thesis using False by (subst read_loop.simps) simp
  qed
qed

lemma read_loop_negative:
  "k < 0 \<Longrightarrow> read_loop ts k (int (length ts)) data = Inl TypeError"
  by (subst read_loop.simps) simp

lemma sort_key_unique:
  assumes "mset st = mset ys" and "sorted (map f ys)" and "distinct (map f ys)"
  shows "sort_key f st = ys"
proof -
  have m: "mset (map f (sort_key f st)) = mset (map f ys)"
    using assms(1) by simp
  have "distinct (map f (sort_key f st))"
    using m assms(3) by (metis mset_eq_imp_distinct_iff)
  moreover have "sorted (map f (sort_key f st))" by simp
  moreover have "set (map f (sort_key f st)) = set (map f ys)"
    using m by (metis set_mset_mset)
  ultimately have eq: "map f (sort_key f st) = map f ys"
    using assms(2,3) by (metis sorted_distinct_set_unique)
  have "set (sort_key f st) = set ys" using assms(1) by (metis set_sort mset_eq_setD)
  moreover have "inj_on f (set ys)" using assms(3) by (simp add: distinct_map)
  ultimately show ?thesis using eq by (metis inj_on_map_eq_map sup.idem)
qed

lemma insort_key_append:
  "\<forall>y\<in>set bs. f x \<le> f y \<Longrightarrow> insort_key f x (as @ bs) = insort_key f x as @ bs"
  by (induction as) (auto simp: insort_is_Cons)

lemma sort_key_append:
  "\<forall>x\<in>set as. \<forall>y\<in>set bs. f x \<le> f y \<Longrightarrow> sorted (map f bs) \<Longrightarrow>
     sort_key f (as @ bs) = sort_key f as @ bs"
  by (induction as) (auto simp: insort_key_append sort_key_id_if_sorted)

subsection \<open>The entries of one producer\<close>

lemma index_entries_from: "map index (entries_from c evs) = [c + 1 .. c + int (length evs)]"
proof (induction evs arbitrary: c)
  case Nil
  show ?case by simp
next
  case (Cons ev evs)
  obtain now tok where ev: "ev = (now, tok)" by (cases ev)
  have "[c + 1 .. c + int (length (ev # evs))] = (c + 1) # [c + 1 + 1 .. c + 1 + int (length evs)]"
    by (simp add: upto_rec1 add.assoc)
  then show ?case using Cons.IH [of "c + 1"] by (simp add: ev)
qed

lemma sorted_entries_from: "sorted (map index (entries_from c evs))"
  by (simp add: index_entries_from)

lemma distinct_entries_from: "distinct (map index (entries_from c evs))"
  by (simp add: index_entries_from)

lemma entries_from_above: "e \<in> set (entries_from c evs) \<Longrightarrow> c < index e"
proof -
  assume "e \<in> set (entries_from c evs)"
  then have "index e \<in> set (map index (entries_from c evs))" by simp
  then show ?thesis by (simp add: index_entries_from)
qed

lemma length_entries_from: "length (entries_from c evs) = length evs"
  by (induction evs arbitrary: c) auto

lemma text_entries_from: "concat (map token (entries_from c evs)) = concat (map snd evs)"
  by (induction evs arbitrary: c) auto

lemma drop_entries_from:
  "c \<le> k \<Longrightarrow>
     drop (nat (k - c)) (entries_from c evs) = filter (\<lambda>e. k < index e) (entries_from c evs)"
proof (induction evs arbitrary: c)
  case Nil
  show ?case by simp
next
  case (Cons ev evs)
  obtain now tok where ev: "ev = (now, tok)" by (cases ev)
  show ?case
  proof (cases "k = c")
    case True
    have "\<forall>e\<in>set (entries_from c (ev # evs)). k < index e"
      using True entries_from_above by blast
    then have "filter (\<lambda>e. k < index e) (entries_from c (ev # evs)) = entries_from c (ev # evs)"
      by (simp only: filter_True)
    then show ?thesis using True by simp
  next
    case False
    with Cons.prems have lt: "c + 1 \<le> k" by simp
    then have "nat (k - c) = Suc (nat (k - (c + 1)))" by linarith
    then show ?thesis using Cons.IH [OF lt] lt by (simp add: ev)
  qed
qed

subsection \<open>The store and the waiting loop\<close>

lemma wait_present: "kv cid = Some c \<Longrightarrow> waitConversationKV kv cid = Some c"
  by (subst waitConversationKV.simps) (simp add: kv_get_def)

lemma wait_returns_stored:
  "waitConversationKV kv cid = Some c \<Longrightarrow> kv cid = Some c"
  by (rule waitConversationKV.raw_induct [where P = "\<lambda>kv cid c. kv cid = Some c"])
     (fastforce simp: kv_get_def split: option.splits)+

lemma wait_absent: "kv cid = None \<Longrightarrow> waitConversationKV kv cid = None"
  using wait_returns_stored [of kv cid] by (cases "waitConversationKV kv cid") auto

lemma merge_first_record: "merge_props old (first_record ix tok now) = first_record ix tok now"
  by (simp add: merge_props_def first_record_def)

lemma merge_only_tokens: "merge_props old (no_props\<lparr>tokens := Some ts\<rparr>) = old\<lparr>tokens := Some ts\<rparr>"
  by (simp add: merge_props_def no_props_def)

lemma kv_set_first_record:
  "kv_set kv cid (first_record ix tok now) = kv(cid \<mapsto> first_record ix tok now)"
  by (simp add: kv_set_def merge_first_record split: option.splits)

lemma kv_set_error:
  "\<exists>p. kv_set kv cid (no_props\<lparr>error := Some e\<rparr>) cid = Some p \<and> error p = Some e"
  by (cases "kv cid") (simp_all add: kv_set_def merge_props_def no_props_def)

subsection \<open>Steps of the recorder\<close>

lemma onProgress_first:
  "conversationStart r \<Longrightarrow>
     onProgress cid now tok (r, kv) =
       Ok (\<lparr>conversationStart = False, conversationCount = conversationCount r + 1\<rparr>,
           kv(cid \<mapsto> first_record (conversationCount r + 1) tok now))"
  by (simp add: onProgress_def written_def kv_set_first_record)

lemma written_append:
  "\<not> conversationStart r \<Longrightarrow> kv cid = Some p \<Longrightarrow> tokens p = Some ts \<Longrightarrow>
     written cid now tok (r, kv) =
       Ok (no_props\<lparr>tokens := Some (ts @ [\<lparr>index = conversationCount r + 1, token = tok\<rparr>])\<rparr>)"
  by (simp add: written_def wait_present)

lemma onProgress_append:
  "\<not> conversationStart r \<Longrightarrow> kv cid = Some p \<Longrightarrow> tokens p = Some ts \<Longrightarrow>
     onProgress cid now tok (r, kv) =
       Ok (\<lparr>conversationStart = False, conversationCount = conversationCount r + 1\<rparr>,
           kv(cid \<mapsto> p\<lparr>tokens := Some (ts @ [\<lparr>index = conversationCount r + 1, token = tok\<rparr>])\<rparr>))"
  by (simp add: onProgress_def written_append kv_set_def merge_only_tokens)

lemma run_tokens_append:
  "\<not> conversationStart r \<Longrightarrow> kv cid = Some p \<Longrightarrow> tokens p = Some ts \<Longrightarrow>
     run_tokens cid evs (r, kv) =
       Ok (\<lparr>conversationStart = False,
            conversationCount = conversationCount r + int (length evs)\<rparr>,
           kv(cid \<mapsto> p\<lparr>tokens := Some (ts @ entries_from (conversationCount r) evs)\<rparr>))"
proof (induction evs arbitrary: r kv p ts)
  case Nil
  have "p\<lparr>tokens := Some ts\<rparr> = p" using Nil.prems(3) by simp
  then have "kv(cid \<mapsto> p\<lparr>tokens := Some ts\<rparr>) = kv"
    using Nil.prems(2) by (simp add: map_upd_triv)
  moreover have "\<lparr>conversationStart = False, conversationCount = conversationCount r\<rparr> = r"
    using Nil.prems(1) by simp
  ultimately show ?case by simp
next
  case (Cons ev evs)
  obtain now tok where ev: "ev = (now, tok)" by (cases ev)
  let ?r = "\<lparr>conversationStart = False, conversationCount = conversationCount r + 1\<rparr>"
  let ?ts = "ts @ [\<lparr>index = conversationCount r + 1, token = tok\<rparr>]"
  let ?p = "p\<lparr>tokens := Some ?ts\<rparr>"
  have step: "onProgress cid now tok (r, kv) = Ok (?r, kv(cid \<mapsto> ?p))"
    using Cons.prems by (rule onProgress_append)
  have "run_tokens cid (ev # evs) (r, kv) = run_tokens cid evs (?r, kv(cid \<mapsto> ?p))"
    by (simp add: ev step)
  also have "\<dots> =
      Ok (\<lparr>conversationStart = False,
           conversationCount = conversationCount ?r + int (length evs)\<rparr>,
          (kv(cid \<mapsto> ?p))(cid \<mapsto> ?p\<lparr>tokens := Some (?ts @ entries_from (conversationCount ?r) evs)\<rparr>))"
    by (rule Cons.IH) simp_all
  also have "\<dots> =
      Ok (\<lparr>conversationStart = False,
           conversationCount = conversationCount r + int (length (ev # evs))\<rparr>,
          kv(cid \<mapsto> p\<lparr>tokens := Some (ts @ entries_from (conversationCount r) (ev # evs))\<rparr>))"
    by (simp add: ev add.assoc)
  finally show ?case .
qed

lemma run_tokens_new:
  "run_tokens cid ((now, tok) # evs) (new_recorder, kv) =
     Ok (\<lparr>conversationStart = False, conversationCount = 1 + int (length evs)\<rparr>,
         kv(cid \<mapsto> (first_record 1 tok now)\<lparr>tokens := Some (entries_from 0 ((now, tok) # evs))\<rparr>))"
proof -
  let ?r = "\<lparr>conversationStart = False, conversationCount = 1\<rparr>"
  have first: "onProgress cid now tok (new_recorder, kv) = Ok (?r, kv(cid \<mapsto> first_record 1 tok now))"
    using onProgress_first [of new_recorder cid now tok kv] by (simp add: new_recorder_def)
  have "run_tokens cid ((now, tok) # evs) (new_recorder, kv) =
      run_tokens cid evs (?r, kv(cid \<mapsto> first_record 1 tok now))"
    by (simp add: first)
  also have "\<dots> =
      Ok (\<lparr>conversationStart = False, conversationCount = conversationCount ?r + int (length evs)\<rparr>,
          (kv(cid \<mapsto> first_record 1 tok now))(cid \<mapsto>
             (first_record 1 tok now)\<lparr>tokens :=
                Some ([\<lparr>index = 1, token = tok\<rparr>] @ entries_from (conversationCount ?r) evs)\<rparr>))"
    by (rule run_tokens_append) (simp_all add: first_record_def)
  also have "\<dots> =
      Ok (\<lparr>conversationStart = False, conversationCount = 1 + int (length evs)\<rparr>,
          kv(cid \<mapsto> (first_record 1 tok now)\<lparr>tokens := Some (entries_from 0 ((now, tok) # evs))\<rparr>))"
    by simp
  finally show ?thesis .
qed

lemma run_tokens_total:
  "\<exists>r' kv'. run_tokens cid evs (new_recorder, kv) = Ok (r', kv')"
proof (cases evs)
  case Nil
  then show ?thesis by simp
next
  case (Cons ev evs')
  obtain now tok where "ev = (now, tok)" by (cases ev)
  then show ?thesis using Cons run_tokens_new [of cid now tok evs' kv] by simp
qed

subsection \<open>Branches of the two handlers\<close>

lemma get_partial:
  assumes "kv cid = Some p" and "\<not> error_truthy (error p)" and "\<not> done_truthy (done_flag p)"
    and "tokens p = Some ts" and "0 \<le> k"
  shows "get_handler kv cid (Some k) =
           (Inr (Partial (int (length ts))
                  (concat (map token (drop (nat k) (sort_key index ts))))), kv)"
proof -
  have "read_loop (sort_key index ts) k (int (length ts)) [] =
          Inr ([] @ concat (map token (drop (nat k) (sort_key index ts))))"
    using assms(5) by (rule read_loop_from) simp
  then show ?thesis using assms(1-4) by (simp add: get_handler_def kv_get_def)
qed

lemma get_default: "get_handler kv cid None = get_handler kv cid (Some 0)"
  by (simp add: get_handler_def)

lemma get_error:
  "kv cid = Some p \<Longrightarrow> error p = Some (ErrorObj c m) \<Longrightarrow>
     get_handler kv cid nextID = (Inr (ErrorEvent (Some (ErrorObj c m))), kv)"
  by (simp add: get_handler_def kv_get_def)

lemma post_stream:
  "stream b \<Longrightarrow>
     \<exists>r' kv'. run_tokens cid (emitted (attempt sendMessage b)) (new_recorder, kv) = Ok (r', kv') \<and>
       post_handler client sendMessage cid b kv =
         Ok (finish client cid True (ending (attempt sendMessage b)) kv')"
proof -
  assume s: "stream b"
  obtain r' kv' where run:
    "run_tokens cid (emitted (attempt sendMessage b)) (new_recorder, kv) = Ok (r', kv')"
    using run_tokens_total by blast
  then have "post_handler client sendMessage cid b kv =
         Ok (finish client cid True (ending (attempt sendMessage b)) kv')"
    using s by (simp add: post_handler_def)
  with run show ?thesis by blast
qed

lemma post_no_stream:
  "\<not> stream b \<Longrightarrow>
     post_handler client sendMessage cid b kv =
       Ok (finish client cid False (ending (attempt sendMessage b)) kv)"
  by (simp add: post_handler_def)

lemma attempt_missing:
  "message b = None \<or> message b = Some [] \<Longrightarrow>
     attempt sendMessage b = \<lparr>emitted = [], ending = Raised (Some 400) (Some message_required)\<rparr>"
  by (auto simp: attempt_def)

lemma attempt_present:
  "message b = Some m \<Longrightarrow> m \<noteq> [] \<Longrightarrow> attempt sendMessage b = sendMessage m"
  by (simp add: attempt_def)

lemma finish_raised_stream:
  "finish client cid True (Raised c m) kv =
     (RawEnd, kv_set kv cid
        (no_props\<lparr>error := Some (ErrorObj (or_code c 503) (or_message m (default_message client)))\<rparr>))"
  by (simp add: finish_def)

lemma finish_raised_no_stream:
  "finish client cid False (Raised c m) kv =
     (SendError (or_code c 503) (or_message m (default_message client)), kv)"
  by (simp add: finish_def)

section \<open>Properties of the Delta Reader\<close>

text \<open>
  C1.  After one producer has recorded the tokens of a request (at least one), the
  record holds the entries with the indices 1, 2, ... in arrival order; and whatever
  the order in which these entries are stored, a read with \<^verbatim>\<open>nextID\<close> 0 answers with
  the number of tokens and the concatenation of all token strings in index order.
\<close>

theorem reader_full_concatenation:
  assumes "mset st = mset (entries_from 0 ((now, tok) # evs))"
  shows "run_tokens cid ((now, tok) # evs) (new_recorder, kv0) =
           Ok (\<lparr>conversationStart = False, conversationCount = int (length ((now, tok) # evs))\<rparr>,
               kv0(cid \<mapsto> (first_record 1 tok now)
                            \<lparr>tokens := Some (entries_from 0 ((now, tok) # evs))\<rparr>)) \<and>
         get_handler (kv0(cid \<mapsto> (first_record 1 tok now)\<lparr>tokens := Some st\<rparr>)) cid (Some 0) =
           (Inr (Partial (int (length ((now, tok) # evs))) (concat (map snd ((now, tok) # evs)))),
            kv0(cid \<mapsto> (first_record 1 tok now)\<lparr>tokens := Some st\<rparr>))"
proof -
  let ?evs = "(now, tok) # evs"
  let ?p = "(first_record 1 tok now)\<lparr>tokens := Some st\<rparr>"
  have run: "run_tokens cid ?evs (new_recorder, kv0) =
      Ok (\<lparr>conversationStart = False, conversationCount = int (length ?evs)\<rparr>,
          kv0(cid \<mapsto> (first_record 1 tok now)\<lparr>tokens := Some (entries_from 0 ?evs)\<rparr>))"
    using run_tokens_new [of cid now tok evs kv0] by simp
  have sorted_st: "sort_key index st = entries_from 0 ?evs"
    using assms sorted_entries_from distinct_entries_from by (rule sort_key_unique)
  have "length st = length ?evs"
    using assms by (metis length_entries_from size_mset)
  moreover have "get_handler (kv0(cid \<mapsto> ?p)) cid (Some 0) =
      (Inr (Partial (int (length st)) (concat (map token (drop (nat 0) (sort_key index st))))),
       kv0(cid \<mapsto> ?p))"
    by (rule get_partial [where p = ?p]) (simp_all add: first_record_def)
  ultimately have "get_handler (kv0(cid \<mapsto> ?p)) cid (Some 0) =
      (Inr (Partial (int (length ?evs)) (concat (map snd ?evs))), kv0(cid \<mapsto> ?p))"
    by (simp only: sorted_st text_entries_from nat_0 drop_0)
  with run show ?thesis by (rule conjI)
qed

theorem reader_full_concatenation_witness:
  "mset [\<lparr>index = 2, token = ''lo''\<rparr>, \<lparr>index = 1, token = ''Hel''\<rparr>] =
     mset (entries_from 0 [(0, ''Hel''), (7, ''lo'')]) \<and>
   get_handler (Map.empty(''c1'' \<mapsto> (first_record 1 ''Hel'' 0)
       \<lparr>tokens := Some [\<lparr>index = 2, token = ''lo''\<rparr>, \<lparr>index = 1, token = ''Hel''\<rparr>]\<rparr>))
     ''c1'' (Some 0) =
     (Inr (Partial 2 ''Hello''),
      Map.empty(''c1'' \<mapsto> (first_record 1 ''Hel'' 0)
       \<lparr>tokens := Some [\<lparr>index = 2, token = ''lo''\<rparr>, \<lparr>index = 1, token = ''Hel''\<rparr>]\<rparr>))"
proof -
  have perm: "mset [\<lparr>index = 2, token = ''lo''\<rparr>, \<lparr>index = 1, token = ''Hel''\<rparr>] =
     mset (entries_from 0 [(0, ''Hel''), (7, ''lo'')])"
    by simp
  show ?thesis
    using perm reader_full_concatenation [OF perm, of "''c1''" Map.empty] by simp
qed

text \<open>
  C2 (amended).  For a record that is neither failed nor done, a read at \<open>k\<close> with
  \<open>0 \<le> k\<close> and \<open>k\<close> at most the number of stored tokens answers with that number as
  the next index; after further appends by the producer (whose counter is at least
  every stored index), a read at that next index answers with exactly the appended
  tokens in arrival order, and the two texts together are the tokens from position
  \<open>k\<close> of the index-sorted list to its end.
\<close>

theorem reader_progress:
  assumes "kv cid = Some p" and "\<not> error_truthy (error p)" and "\<not> done_truthy (done_flag p)"
    and "tokens p = Some ts"
    and "0 \<le> k" and "k \<le> int (length ts)"
    and "\<not> conversationStart r" and "\<forall>e\<in>set ts. index e \<le> conversationCount r"
  shows "\<exists>text1 text2 r' kv' ts'.
           get_handler kv cid (Some k) = (Inr (Partial (int (length ts)) text1), kv) \<and>
           run_tokens cid evs (r, kv) = Ok (r', kv') \<and>
           ts' = ts @ entries_from (conversationCount r) evs \<and>
           kv' cid = Some (p\<lparr>tokens := Some ts'\<rparr>) \<and>
           get_handler kv' cid (Some (int (length ts))) =
             (Inr (Partial (int (length ts')) text2), kv') \<and>
           text2 = concat (map snd evs) \<and>
           text1 @ text2 = concat (map token (drop (nat k) (sort_key index ts')))"
proof -
  let ?new = "entries_from (conversationCount r) evs"
  let ?ts' = "ts @ ?new"
  let ?p' = "p\<lparr>tokens := Some ?ts'\<rparr>"
  let ?kv' = "kv(cid \<mapsto> ?p')"
  let ?r' = "\<lparr>conversationStart = False,
             conversationCount = conversationCount r + int (length evs)\<rparr>"
  let ?text1 = "concat (map token (drop (nat k) (sort_key index ts)))"
  let ?text2 = "concat (map token (drop (nat (int (length ts))) (sort_key index ?ts')))"
  have first: "get_handler kv cid (Some k) = (Inr (Partial (int (length ts)) ?text1), kv)"
    using assms(1-5) by (rule get_partial)
  have run: "run_tokens cid evs (r, kv) = Ok (?r', ?kv')"
    using assms(7,1,4) by (rule run_tokens_append)
  have stored: "?kv' cid = Some ?p'" by simp
  have second: "get_handler ?kv' cid (Some (int (length ts))) =
      (Inr (Partial (int (length ?ts')) ?text2), ?kv')"
    by (rule get_partial [where p = ?p']) (use assms(2,3) in simp_all)
  have "\<forall>x\<in>set ts. \<forall>y\<in>set ?new. index x \<le> index y"
    using assms(8) entries_from_above by fastforce
  then have sorted_all: "sort_key index ?ts' = sort_key index ts @ ?new"
    using sorted_entries_from by (rule sort_key_append)
  have rest: "drop (nat (int (length ts))) (sort_key index ?ts') = ?new"
    by (simp add: sorted_all)
  have "nat k \<le> length (sort_key index ts)" using assms(5,6) by simp
  then have both: "drop (nat k) (sort_key index ?ts') = drop (nat k) (sort_key index ts) @ ?new"
    by (simp add: sorted_all)
  have text2: "?text2 = concat (map snd evs)"
    by (simp only: rest text_entries_from)
  have joined: "?text1 @ ?text2 = concat (map token (drop (nat k) (sort_key index ?ts')))"
    by (simp only: rest both map_append concat_append)
  show ?thesis
    using first run stored second text2 joined by blast
qed

theorem reader_progress_witness:
  "\<exists>text1 text2 r' kv' ts'.
     get_handler stale_store ''c1'' (Some 0) = (Inr (Partial 1 text1), stale_store) \<and>
     run_tokens ''c1'' [(0, ''b'')] (\<lparr>conversationStart = False, conversationCount = 1\<rparr>, stale_store) =
       Ok (r', kv') \<and>
     ts' = [\<lparr>index = 1, token = ''a''\<rparr>, \<lparr>index = 2, token = ''b''\<rparr>] \<and>
     kv' ''c1'' = Some ((first_record 1 ''a'' 0)\<lparr>tokens := Some ts'\<rparr>) \<and>
     get_handler kv' ''c1'' (Some 1) = (Inr (Partial 2 text2), kv') \<and>
     text2 = ''b'' \<and>
     text1 @ text2 = ''ab''"
  using reader_progress [of stale_store "''c1''" "first_record 1 ''a'' 0"
      "[\<lparr>index = 1, token = ''a''\<rparr>]" 0 "\<lparr>conversationStart = False, conversationCount = 1\<rparr>"
      "[(0, ''b'')]"]
  by (simp add: stale_store_def first_record_def)

text \<open>
  The claim as stated, for every \<open>k\<close>, fails when \<open>k\<close> exceeds the number of stored
  tokens: with one token stored, the read at 5 sends nothing and the next index 1, the
  read at 1 after one append sends the appended token, and nothing lies at or after
  position 5.
\<close>

theorem reader_progress_counterexample:
  "fst (get_handler stale_store ''c1'' (Some 5)) = Inr (Partial 1 '''') \<and>
   run_tokens ''c1'' [(0, ''b'')] (\<lparr>conversationStart = False, conversationCount = 1\<rparr>, stale_store) =
     Ok (\<lparr>conversationStart = False, conversationCount = 2\<rparr>, grown_store) \<and>
   fst (get_handler grown_store ''c1'' (Some 1)) = Inr (Partial 2 ''b'') \<and>
   '''' @ ''b'' \<noteq>
     concat (map token (drop 5 (sort_key index
       [\<lparr>index = 1, token = ''a''\<rparr>, \<lparr>index = 2, token = ''b''\<rparr>])))"
proof -
  have a: "fst (get_handler stale_store ''c1'' (Some 5)) = Inr (Partial 1 '''')"
    by (simp add: get_handler_def kv_get_def stale_store_def first_record_def read_loop.simps)
  have b: "run_tokens ''c1'' [(0, ''b'')]
        (\<lparr>conversationStart = False, conversationCount = 1\<rparr>, stale_store) =
      Ok (\<lparr>conversationStart = False, conversationCount = 2\<rparr>, grown_store)"
    using run_tokens_append [of "\<lparr>conversationStart = False, conversationCount = 1\<rparr>" stale_store
        "''c1''" "first_record 1 ''a'' 0" "[\<lparr>index = 1, token = ''a''\<rparr>]" "[(0, ''b'')]"]
    by (simp add: stale_store_def grown_store_def first_record_def del: run_tokens.simps)
  have c: "fst (get_handler grown_store ''c1'' (Some 1)) = Inr (Partial 2 ''b'')"
    by (simp add: get_handler_def kv_get_def grown_store_def first_record_def read_loop.simps)
  have d: "'''' @ ''b'' \<noteq>
     concat (map token (drop 5 (sort_key index
       [\<lparr>index = 1, token = ''a''\<rparr>, \<lparr>index = 2, token = ''b''\<rparr>])))"
    by simp
  show ?thesis by (intro conjI a b c d)
qed

text \<open>
  C3 (amended).  For a record that is neither failed nor done and \<open>0 \<le> k\<close>, the
  partial reply carries the token text of the entries at the positions \<open>k\<close>, \<open>k + 1\<close>,
  ... of the index-sorted list, and the length of the stored list as next index; a
  missing \<^verbatim>\<open>nextID\<close> reads as 0.  When the stored entries are those of one producer
  (indices 1, 2, ...), in any order, these are the entries whose index is greater than
  \<open>k\<close>.
\<close>

theorem reader_partial_result:
  assumes "kv cid = Some p" and "\<not> error_truthy (error p)" and "\<not> done_truthy (done_flag p)"
    and "tokens p = Some ts" and "0 \<le> k"
  shows "get_handler kv cid (Some k) =
           (Inr (Partial (int (length ts))
                  (concat (map token (drop (nat k) (sort_key index ts))))), kv) \<and>
         get_handler kv cid None = get_handler kv cid (Some 0) \<and>
         (mset ts = mset (entries_from 0 evs) \<longrightarrow>
            get_handler kv cid (Some k) =
              (Inr (Partial (int (length ts)) (text_after_index ts k)), kv))"
proof -
  have partial: "get_handler kv cid (Some k) =
           (Inr (Partial (int (length ts))
                  (concat (map token (drop (nat k) (sort_key index ts))))), kv)"
    using assms by (rule get_partial)
  have "drop (nat k) (sort_key index ts) = filter (\<lambda>e. k < index e) (sort_key index ts)"
    if perm: "mset ts = mset (entries_from 0 evs)"
  proof -
    have "sort_key index ts = entries_from 0 evs"
      using perm sorted_entries_from distinct_entries_from by (rule sort_key_unique)
    then show ?thesis using drop_entries_from [of 0 k evs] assms(5) by simp
  qed
  then show ?thesis using partial by (simp add: get_default text_after_index_def)
qed

theorem reader_partial_result_witness:
  "get_handler hello_store ''c1'' (Some 1) = (Inr (Partial 2 ''lo''), hello_store) \<and>
   text_after_index hello_tokens 1 = ''lo''"
proof -
  have perm: "mset hello_tokens = mset (entries_from 0 [(0, ''Hel''), (0, ''lo'')])"
    by (simp add: hello_tokens_def)
  have "get_handler hello_store ''c1'' (Some 1) =
           (Inr (Partial (int (length hello_tokens))
                  (concat (map token (drop (nat 1) (sort_key index hello_tokens))))), hello_store) \<and>
         get_handler hello_store ''c1'' None = get_handler hello_store ''c1'' (Some 0) \<and>
         (mset hello_tokens = mset (entries_from 0 [(0, ''Hel''), (0, ''lo'')]) \<longrightarrow>
            get_handler hello_store ''c1'' (Some 1) =
              (Inr (Partial (int (length hello_tokens)) (text_after_index hello_tokens 1)), hello_store))"
    by (rule reader_partial_result [where p = "(first_record 1 ''Hel'' 0)\<lparr>tokens := Some hello_tokens\<rparr>"])
       (simp_all add: hello_store_def first_record_def)
  with perm have "get_handler hello_store ''c1'' (Some 1) =
      (Inr (Partial (int (length hello_tokens)) (text_after_index hello_tokens 1)), hello_store)"
    by blast
  moreover have "text_after_index hello_tokens 1 = ''lo''"
    by (simp add: text_after_index_def hello_tokens_def)
  moreover have "int (length hello_tokens) = 2" by (simp add: hello_tokens_def)
  ultimately show ?thesis by simp
qed

text \<open>
  The claim as stated takes the entries whose index is at least \<open>k\<close>: with
  \<^verbatim>\<open>(1, "Hel")\<close> and \<^verbatim>\<open>(2, "lo")\<close> stored, the read at 1 sends \<^verbatim>\<open>"lo"\<close>, not
  \<^verbatim>\<open>"Hello"\<close>.
\<close>

theorem reader_partial_result_counterexample:
  "get_handler hello_store ''c1'' (Some 1) = (Inr (Partial 2 ''lo''), hello_store) \<and>
   text_from_index hello_tokens 1 = ''Hello'' \<and>
   get_handler hello_store ''c1'' (Some 1) \<noteq>
     (Inr (Partial 2 (text_from_index hello_tokens 1)), hello_store)"
proof -
  have a: "get_handler hello_store ''c1'' (Some 1) = (Inr (Partial 2 ''lo''), hello_store)"
    by (simp add: get_handler_def kv_get_def hello_store_def hello_tokens_def first_record_def
        read_loop.simps)
  have b: "text_from_index hello_tokens 1 = ''Hello''"
    by (simp add: text_from_index_def hello_tokens_def)
  show ?thesis by (simp add: a b)
qed

text \<open>
  C5.  When the stored record has its error set or is done, every read, at any index,
  answers with the terminal event (the error event when the error is set, the result
  event otherwise) and never with a partial reply.
\<close>

theorem reader_terminal_exclusive:
  assumes "kv cid = Some p" and "error_truthy (error p) \<or> done_truthy (done_flag p)"
  shows "get_handler kv cid nextID =
           (Inr (if error_truthy (error p) then ErrorEvent (error p) else ResultEvent (result p)), kv) \<and>
         (\<forall>n text. fst (get_handler kv cid nextID) \<noteq> Inr (Partial n text))"
  using assms by (auto simp: get_handler_def kv_get_def)

theorem reader_terminal_exclusive_witness:
  "get_handler (Map.empty(''c1'' \<mapsto> no_props\<lparr>tokens := Some hello_tokens,
       result := Some (ResultPayload ''Hello''), done_flag := Some True\<rparr>)) ''c1'' (Some 1) =
     (Inr (ResultEvent (Some (ResultPayload ''Hello''))),
      Map.empty(''c1'' \<mapsto> no_props\<lparr>tokens := Some hello_tokens,
       result := Some (ResultPayload ''Hello''), done_flag := Some True\<rparr>))"
  using reader_terminal_exclusive [of
      "Map.empty(''c1'' \<mapsto> no_props\<lparr>tokens := Some hello_tokens,
         result := Some (ResultPayload ''Hello''), done_flag := Some True\<rparr>)"
      "''c1''"
      "no_props\<lparr>tokens := Some hello_tokens,
         result := Some (ResultPayload ''Hello''), done_flag := Some True\<rparr>"
      "Some 1"]
  by (simp add: no_props_def)

text \<open>
  C9.  When the store holds no record for the conversation id, the Delta Reader answers
  with the NotFound payload, an error event carrying code 404, whatever the requested
  index is, and the store is the same afterwards.
\<close>

theorem reader_not_found:
  assumes "kv cid = None"
  shows "get_handler kv cid nextID =
           (Inr (ErrorEvent (Some (ErrorObj 404 ''conversationID not Found!''))), kv)"
  using assms by (simp add: get_handler_def kv_get_def)

theorem reader_not_found_witness:
  "(Map.empty :: store) ''c1'' = None \<and>
   get_handler Map.empty ''c1'' (Some 3) =
     (Inr (ErrorEvent (Some (ErrorObj 404 ''conversationID not Found!''))), Map.empty)"
  using reader_not_found [of Map.empty "''c1''" "Some 3"] by simp

text \<open>
  C10.  The error is tested before the done flag: for a record in which the error is
  set and the done flag is true as well, every read answers with the error event and
  not with the result event.
\<close>

theorem reader_error_before_done:
  assumes "kv cid = Some p" and "error_truthy (error p)" and "done_truthy (done_flag p)"
  shows "get_handler kv cid nextID = (Inr (ErrorEvent (error p)), kv) \<and>
         fst (get_handler kv cid nextID) \<noteq> Inr (ResultEvent (result p))"
  using assms by (simp add: get_handler_def kv_get_def)

theorem reader_error_before_done_witness:
  "get_handler both_terminal_store ''c1'' None =
     (Inr (ErrorEvent (Some (ErrorObj 503 ''down''))), both_terminal_store)"
proof -
  let ?p = "no_props\<lparr>error := Some (ErrorObj 503 ''down''),
              result := Some (ResultPayload ''Hello''), done_flag := Some True\<rparr>"
  have stored: "both_terminal_store ''c1'' = Some ?p"
    by (simp add: both_terminal_store_def finish_def kv_set_def merge_props_def no_props_def)
  have "error_truthy (error ?p)" and "done_truthy (done_flag ?p)"
    by (simp_all add: no_props_def)
  with stored have "get_handler both_terminal_store ''c1'' None = (Inr (ErrorEvent (error ?p)), both_terminal_store) \<and>
         fst (get_handler both_terminal_store ''c1'' None) \<noteq> Inr (ResultEvent (result ?p))"
    by (rule reader_error_before_done)
  then show ?thesis by (simp add: no_props_def)
qed

section \<open>Properties of the Progress Recorder\<close>

text \<open>
  C6.  For a token after the first of one producer run, the object handed to the store
  has the extended token list as its only field, and the stored record afterwards has
  the same done flag, result, error and ttl as before; its token list is the old one
  with the entry (number of earlier tokens + 1, token) appended.
\<close>

theorem append_updates_only_tokens:
  assumes "pre \<noteq> []"
  shows "\<exists>r kv p ts w r' kv' p'.
           run_tokens cid pre (new_recorder, kv0) = Ok (r, kv) \<and>
           kv cid = Some p \<and> tokens p = Some ts \<and>
           written cid now tok (r, kv) = Ok w \<and>
           tokens w = Some (ts @ [\<lparr>index = int (length pre) + 1, token = tok\<rparr>]) \<and>
           done_flag w = None \<and> result w = None \<and> error w = None \<and> ttl w = None \<and>
           onProgress cid now tok (r, kv) = Ok (r', kv') \<and>
           kv' cid = Some p' \<and>
           tokens p' = Some (ts @ [\<lparr>index = int (length pre) + 1, token = tok\<rparr>]) \<and>
           done_flag p' = done_flag p \<and> result p' = result p \<and>
           error p' = error p \<and> ttl p' = ttl p"
proof -
  obtain now0 tok0 evs where pre: "pre = (now0, tok0) # evs"
    using assms by (cases pre) auto
  let ?r = "\<lparr>conversationStart = False, conversationCount = 1 + int (length evs)\<rparr>"
  let ?ts = "entries_from 0 pre"
  let ?p = "(first_record 1 tok0 now0)\<lparr>tokens := Some ?ts\<rparr>"
  let ?kv = "kv0(cid \<mapsto> ?p)"
  let ?new = "?ts @ [\<lparr>index = int (length pre) + 1, token = tok\<rparr>]"
  have run: "run_tokens cid pre (new_recorder, kv0) = Ok (?r, ?kv)"
    unfolding pre by (rule run_tokens_new)
  have stored: "?kv cid = Some ?p" by simp
  have toks: "tokens ?p = Some ?ts" by simp
  have started: "\<not> conversationStart ?r" by simp
  have count: "conversationCount ?r + 1 = int (length pre) + 1" by (simp add: pre)
  have "written cid now tok (?r, ?kv) =
      Ok (no_props\<lparr>tokens := Some (?ts @ [\<lparr>index = conversationCount ?r + 1, token = tok\<rparr>])\<rparr>)"
    by (rule written_append [where p = ?p]) simp_all
  then have w: "written cid now tok (?r, ?kv) = Ok (no_props\<lparr>tokens := Some ?new\<rparr>)"
    by (simp only: count)
  have "onProgress cid now tok (?r, ?kv) =
      Ok (\<lparr>conversationStart = False, conversationCount = conversationCount ?r + 1\<rparr>,
          ?kv(cid \<mapsto> ?p\<lparr>tokens := Some (?ts @ [\<lparr>index = conversationCount ?r + 1, token = tok\<rparr>])\<rparr>))"
    by (rule onProgress_append) simp_all
  then have step: "onProgress cid now tok (?r, ?kv) =
      Ok (\<lparr>conversationStart = False, conversationCount = int (length pre) + 1\<rparr>,
          ?kv(cid \<mapsto> ?p\<lparr>tokens := Some ?new\<rparr>))"
    by (simp only: count)
  have frame: "(?kv(cid \<mapsto> ?p\<lparr>tokens := Some ?new\<rparr>)) cid = Some (?p\<lparr>tokens := Some ?new\<rparr>)"
    by simp
  show ?thesis
    apply (rule exI [of _ ?r], rule exI [of _ ?kv], rule exI [of _ ?p], rule exI [of _ ?ts])
    apply (rule exI [of _ "no_props\<lparr>tokens := Some ?new\<rparr>"])
    apply (rule exI [of _ "\<lparr>conversationStart = False, conversationCount = int (length pre) + 1\<rparr>"])
    apply (rule exI [of _ "?kv(cid \<mapsto> ?p\<lparr>tokens := Some ?new\<rparr>)"])
    apply (rule exI [of _ "?p\<lparr>tokens := Some ?new\<rparr>"])
    apply (simp only: run w step stored toks frame)
    apply (simp add: no_props_def)
    done
qed

theorem append_updates_only_tokens_witness:
  "\<exists>r kv p ts w r' kv' p'.
           run_tokens ''c1'' [(0, ''Hel'')] (new_recorder, Map.empty) = Ok (r, kv) \<and>
           kv ''c1'' = Some p \<and> tokens p = Some ts \<and>
           written ''c1'' 5 ''lo'' (r, kv) = Ok w \<and>
           tokens w = Some (ts @ [\<lparr>index = 2, token = ''lo''\<rparr>]) \<and>
           done_flag w = None \<and> result w = None \<and> error w = None \<and> ttl w = None \<and>
           onProgress ''c1'' 5 ''lo'' (r, kv) = Ok (r', kv') \<and>
           kv' ''c1'' = Some p' \<and>
           tokens p' = Some (ts @ [\<lparr>index = 2, token = ''lo''\<rparr>]) \<and>
           done_flag p' = done_flag p \<and> result p' = result p \<and>
           error p' = error p \<and> ttl p' = ttl p"
  using append_updates_only_tokens [of "[(0, ''Hel'')]" "''c1''" Map.empty 5 "''lo''"] by simp

text \<open>
  C7.  For the first token, the object written is built without looking at the store:
  its tokens are the single entry (1, token), done, error and result are false, and ttl
  is the time in epoch seconds plus 600.  Whatever the store held before, it holds
  exactly this record for the conversation id afterwards.
\<close>

theorem first_token_record:
  "written cid now tok (new_recorder, kv) = Ok (first_record 1 tok now) \<and>
   onProgress cid now tok (new_recorder, kv) =
     Ok (\<lparr>conversationStart = False, conversationCount = 1\<rparr>,
         kv(cid \<mapsto> \<lparr>tokens = Some [\<lparr>index = 1, token = tok\<rparr>],
                       done_flag = Some False,
                       error = Some ErrorFalse,
                       result = Some ResultFalse,
                       ttl = Some (now div 1000 + 600)\<rparr>))"
proof -
  have "written cid now tok (new_recorder, kv) = Ok (first_record 1 tok now)"
    by (simp add: written_def new_recorder_def)
  moreover have "onProgress cid now tok (new_recorder, kv) =
      Ok (\<lparr>conversationStart = False, conversationCount = 1\<rparr>, kv(cid \<mapsto> first_record 1 tok now))"
    using onProgress_first [of new_recorder cid now tok kv] by (simp add: new_recorder_def)
  ultimately show ?thesis by (simp add: first_record_def)
qed

section \<open>Properties of the POST handler\<close>

text \<open>
  C4 (amended).  For a body whose message is missing or empty: without streaming, the
  handler answers 400 with \<^verbatim>\<open>The message parameter is required.\<close> and leaves the store
  as it was, so that an id without a record still reads as NotFound; with streaming, it
  ends the response and writes the error (400, that message) to the record of the
  conversation id, and a read for the id answers with this error event.
\<close>

theorem missing_message_reported:
  assumes "message b = None \<or> message b = Some []"
  shows "(\<not> stream b \<longrightarrow>
            post_handler client sendMessage cid b kv = Ok (SendError 400 message_required, kv) \<and>
            (kv cid = None \<longrightarrow>
               get_handler kv cid nextID =
                 (Inr (ErrorEvent (Some (ErrorObj 404 ''conversationID not Found!''))), kv))) \<and>
         (stream b \<longrightarrow>
            post_handler client sendMessage cid b kv =
              Ok (RawEnd, kv_set kv cid (no_props\<lparr>error := Some (ErrorObj 400 message_required)\<rparr>)) \<and>
            get_handler (kv_set kv cid (no_props\<lparr>error := Some (ErrorObj 400 message_required)\<rparr>))
                cid nextID =
              (Inr (ErrorEvent (Some (ErrorObj 400 message_required))),
               kv_set kv cid (no_props\<lparr>error := Some (ErrorObj 400 message_required)\<rparr>)))"
proof -
  let ?patch = "no_props\<lparr>error := Some (ErrorObj 400 message_required)\<rparr>"
  have att: "attempt sendMessage b =
      \<lparr>emitted = [], ending = Raised (Some 400) (Some message_required)\<rparr>"
    using assms by (rule attempt_missing)
  have msg: "message_required \<noteq> []"
    by (simp add: message_required_def)
  have plain: "post_handler client sendMessage cid b kv = Ok (SendError 400 message_required, kv)"
    if "\<not> stream b"
    using that by (simp add: post_no_stream att finish_raised_no_stream msg)
  have absent: "get_handler kv cid nextID =
      (Inr (ErrorEvent (Some (ErrorObj 404 ''conversationID not Found!''))), kv)"
    if "kv cid = None"
    using that by (simp add: get_handler_def kv_get_def)
  have streamed: "post_handler client sendMessage cid b kv = Ok (RawEnd, kv_set kv cid ?patch)"
    if "stream b"
    using that by (simp add: post_handler_def att finish_raised_stream msg new_recorder_def)
  obtain p where "kv_set kv cid ?patch cid = Some p" and "error p = Some (ErrorObj 400 message_required)"
    using kv_set_error by blast
  then have seen: "get_handler (kv_set kv cid ?patch) cid nextID =
      (Inr (ErrorEvent (Some (ErrorObj 400 message_required))), kv_set kv cid ?patch)"
    by (rule get_error)
  show ?thesis using plain absent streamed seen by blast
qed

theorem missing_message_reported_witness:
  "post_handler ''chatgpt'' quiet_provider ''c1'' \<lparr>message = None, stream = False\<rparr> Map.empty =
     Ok (SendError 400 message_required, Map.empty) \<and>
   get_handler Map.empty ''c1'' (Some 0) =
     (Inr (ErrorEvent (Some (ErrorObj 404 ''conversationID not Found!''))), Map.empty) \<and>
   post_handler ''chatgpt'' quiet_provider ''c1'' no_message_stream Map.empty =
     Ok (RawEnd, kv_set Map.empty ''c1'' (no_props\<lparr>error := Some (ErrorObj 400 message_required)\<rparr>))"
  using missing_message_reported [of "\<lparr>message = None, stream = False\<rparr>" "''chatgpt''"
      quiet_provider "''c1''" Map.empty "Some 0"]
    missing_message_reported [of no_message_stream "''chatgpt''"
      quiet_provider "''c1''" Map.empty "Some 0"]
  by (simp add: no_message_stream_def)

text \<open>
  The claim as stated, no write in stream mode either, fails on the empty store: the
  record is created, and the read answers with the 400 error, not with NotFound.
\<close>

theorem missing_message_counterexample:
  "post_handler ''chatgpt'' quiet_provider ''c1'' no_message_stream Map.empty =
     Ok (RawEnd, Map.empty(''c1'' \<mapsto> no_props\<lparr>error := Some (ErrorObj 400 message_required)\<rparr>)) \<and>
   fst (get_handler (Map.empty(''c1'' \<mapsto> no_props\<lparr>error := Some (ErrorObj 400 message_required)\<rparr>))
          ''c1'' (Some 0)) =
     Inr (ErrorEvent (Some (ErrorObj 400 message_required))) \<and>
   fst (get_handler (Map.empty(''c1'' \<mapsto> no_props\<lparr>error := Some (ErrorObj 400 message_required)\<rparr>))
          ''c1'' (Some 0)) \<noteq>
     Inr (ErrorEvent (Some (ErrorObj 404 ''conversationID not Found!'')))"
  by (simp add: post_handler_def attempt_def no_message_stream_def new_recorder_def finish_def
      kv_set_def get_handler_def kv_get_def no_props_def message_required_def)

text \<open>
  C8 (amended).  When the provider call throws in streaming mode, the handler ends the
  response and the record holds an error of a code and a message, which every read
  then answers with.  The code is the one attached to the provider's error when there
  is one and it is not 0, and 503 otherwise; the message is the attached one when it is
  not empty, and the default message otherwise.
\<close>

theorem provider_failure_persisted:
  assumes "stream b" and "message b = Some m" and "m \<noteq> []"
    and "ending (sendMessage m) = Raised c msg"
  shows "\<exists>kv' p code text.
           post_handler client sendMessage cid b kv = Ok (RawEnd, kv') \<and>
           kv' cid = Some p \<and> error p = Some (ErrorObj code text) \<and>
           code = (case c of None \<Rightarrow> 503 | Some x \<Rightarrow> if x = 0 then 503 else x) \<and>
           text = (case msg of None \<Rightarrow> default_message client
                   | Some t \<Rightarrow> if t = [] then default_message client else t) \<and>
           get_handler kv' cid nextID = (Inr (ErrorEvent (Some (ErrorObj code text))), kv')"
proof -
  let ?code = "or_code c 503"
  let ?text = "or_message msg (default_message client)"
  let ?patch = "no_props\<lparr>error := Some (ErrorObj ?code ?text)\<rparr>"
  have att: "attempt sendMessage b = sendMessage m"
    using assms(2,3) by (rule attempt_present)
  obtain kv1 where
    post: "post_handler client sendMessage cid b kv =
             Ok (finish client cid True (ending (attempt sendMessage b)) kv1)"
    using post_stream [OF assms(1)] by blast
  have ended: "post_handler client sendMessage cid b kv = Ok (RawEnd, kv_set kv1 cid ?patch)"
    using post by (simp add: att assms(4) finish_raised_stream)
  obtain p where p: "kv_set kv1 cid ?patch cid = Some p" "error p = Some (ErrorObj ?code ?text)"
    using kv_set_error by blast
  have seen: "get_handler (kv_set kv1 cid ?patch) cid nextID =
      (Inr (ErrorEvent (Some (ErrorObj ?code ?text))), kv_set kv1 cid ?patch)"
    using p by (rule get_error)
  have code_eq: "?code = (case c of None \<Rightarrow> 503 | Some x \<Rightarrow> if x = 0 then 503 else x)"
    by (cases c) simp_all
  have text_eq: "?text = (case msg of None \<Rightarrow> default_message client
                   | Some t \<Rightarrow> if t = [] then default_message client else t)"
    by (cases msg) simp_all
  show ?thesis using ended p seen code_eq text_eq by blast
qed

theorem provider_failure_persisted_witness:
  "\<exists>kv' p code text.
      post_handler ''chatgpt'' failing_provider ''c1'' \<lparr>message = Some ''hi'', stream = True\<rparr> Map.empty =
        Ok (RawEnd, kv') \<and>
      kv' ''c1'' = Some p \<and> error p = Some (ErrorObj code text) \<and>
      code = 429 \<and> text = ''quota'' \<and>
      get_handler kv' ''c1'' (Some 0) = (Inr (ErrorEvent (Some (ErrorObj code text))), kv')"
  using provider_failure_persisted [of "\<lparr>message = Some ''hi'', stream = True\<rparr>" "''hi''"
      failing_provider "Some 429" "Some ''quota''" "''chatgpt''" "''c1''" Map.empty "Some 0"]
  by (simp add: failing_provider_def)

text \<open>
  The claim as stated, the attached code whenever one is present, fails for the code 0,
  which \<^verbatim>\<open>||\<close> replaces by 503.
\<close>

theorem provider_failure_counterexample:
  "ending (zero_code_provider ''hi'') = Raised (Some 0) (Some ''quota'') \<and>
   post_handler ''chatgpt'' zero_code_provider ''c1'' \<lparr>message = Some ''hi'', stream = True\<rparr> Map.empty =
     Ok (RawEnd, Map.empty(''c1'' \<mapsto> no_props\<lparr>error := Some (ErrorObj 503 ''quota'')\<rparr>)) \<and>
   error (no_props\<lparr>error := Some (ErrorObj 503 ''quota'')\<rparr>) \<noteq> Some (ErrorObj 0 ''quota'')"
  by (simp add: post_handler_def attempt_def zero_code_provider_def new_recorder_def finish_def
      kv_set_def no_props_def)

end
